theory Spec2Isabelle
  imports Main "HOL-Library.Multiset" "HOL-Library.Char_ord" "HOL-Library.List_Lexorder"
begin

section \<open>Values shared by the three Lambda functions\<close>

text \<open>
  The page results and the model output are JSON documents. A parsed document is a value
  of \<open>json\<close>: Python's \<open>None\<close>, \<open>bool\<close>, \<open>int\<close>, \<open>str\<close>, \<open>list\<close> and \<open>dict\<close> (a
  dict keeps insertion order, so it is an association list, read with \<open>map_of\<close>).
  JSON numbers with a fraction (Python floats) are left out of the model. A character is a
  code point below 256.
\<close>

datatype json =
    JNull
  | JBool bool
  | JInt int
  | JStr string
  | JArr "json list"
  | JObj "(string \<times> json) list"

datatype py_error =
    TypeError
  | AttributeError
  | IndexError
  | RuntimeError
  | NotModelled

text \<open>Python truth value of a parsed JSON value (\<open>if not x\<close>).\<close>

fun truthy :: "json \<Rightarrow> bool" where
  "truthy JNull = False"
| "truthy (JBool b) = b"
| "truthy (JInt i) = (i \<noteq> 0)"
| "truthy (JStr s) = (s \<noteq> [])"
| "truthy (JArr xs) = (xs \<noteq> [])"
| "truthy (JObj kvs) = (kvs \<noteq> [])"

text \<open>\<open>d.get(k)\<close>: a missing key reads as \<open>None\<close>.\<close>

definition dict_get :: "(string \<times> json) list \<Rightarrow> string \<Rightarrow> json" where
  "dict_get d k = (case map_of d k of None \<Rightarrow> JNull | Some v \<Rightarrow> v)"

text \<open>\<open>d.get(k, default)\<close>.\<close>

definition dict_get_default :: "(string \<times> json) list \<Rightarrow> string \<Rightarrow> json \<Rightarrow> json" where
  "dict_get_default d k dflt = (case map_of d k of None \<Rightarrow> dflt | Some v \<Rightarrow> v)"

text \<open>\<open>type(x).__name__\<close>, as it appears in the message of an AttributeError.\<close>

fun type_name :: "json \<Rightarrow> string" where
  "type_name JNull = ''NoneType''"
| "type_name (JBool b) = ''bool''"
| "type_name (JInt i) = ''int''"
| "type_name (JStr s) = ''str''"
| "type_name (JArr xs) = ''list''"
| "type_name (JObj kvs) = ''dict''"

subsection \<open>Strings\<close>

definition is_digit :: "char \<Rightarrow> bool" where
  "is_digit c = (48 \<le> (of_char c :: nat) \<and> (of_char c :: nat) \<le> 57)"

text \<open>\<open>str.isspace\<close> on one character, and the narrower set that \<open>int()\<close> strips.\<close>

definition is_space :: "char \<Rightarrow> bool" where
  "is_space c = ((of_char c :: nat) \<in> {9, 10, 11, 12, 13, 28, 29, 30, 31, 32, 133, 160})"

definition is_int_space :: "char \<Rightarrow> bool" where
  "is_int_space c = ((of_char c :: nat) \<in> {9, 10, 11, 12, 13, 32, 133, 160})"

definition strip :: "string \<Rightarrow> string" where
  "strip s = rev (dropWhile is_space (rev (dropWhile is_space s)))"

definition lower_char :: "char \<Rightarrow> char" where
  "lower_char c =
     (let n = (of_char c :: nat)
      in if (65 \<le> n \<and> n \<le> 90) \<or> (192 \<le> n \<and> n \<le> 222 \<and> n \<noteq> 215)
         then char_of (n + 32) else c)"

definition lower :: "string \<Rightarrow> string" where
  "lower s = map lower_char s"

text \<open>\<open>s.split(c)\<close> for a one-character separator: never empty.\<close>

fun split_on :: "char \<Rightarrow> string \<Rightarrow> string list" where
  "split_on c [] = [[]]"
| "split_on c (x # xs) =
     (if x = c then [] # split_on c xs
      else (case split_on c xs of [] \<Rightarrow> [[x]] | p # ps \<Rightarrow> (x # p) # ps))"

text \<open>\<open>sep.join(parts)\<close>.\<close>

fun py_join :: "string \<Rightarrow> string list \<Rightarrow> string" where
  "py_join sep [] = []"
| "py_join sep [p] = p"
| "py_join sep (p # q # ps) = p @ sep @ py_join sep (q # ps)"

text \<open>\<open>s.replace(old, '')\<close> for a non-empty \<open>old\<close>: left to right, without overlap.\<close>

function str_remove :: "string \<Rightarrow> string \<Rightarrow> string" where
  "str_remove old [] = []"
| "str_remove old (c # cs) =
     (if old \<noteq> [] \<and> take (length old) (c # cs) = old
      then str_remove old (drop (length old) (c # cs))
      else c # str_remove old cs)"
  by pat_completeness auto
termination
  by (relation "measure (\<lambda>(old, s). length s)") auto

text \<open>\<open>s.rfind(c)\<close>, with \<open>None\<close> for -1.\<close>

fun rfind :: "char \<Rightarrow> string \<Rightarrow> nat option" where
  "rfind c [] = None"
| "rfind c (x # xs) =
     (case rfind c xs of
        Some i \<Rightarrow> Some (Suc i)
      | None \<Rightarrow> if x = c then Some 0 else None)"

text \<open>
  \<open>int(s)\<close> in base 10: surrounding white space, one optional sign, digits with single
  underscores between them. \<open>None\<close> is the ValueError.
\<close>

fun valid_digits :: "string \<Rightarrow> bool" where
  "valid_digits [] = False"
| "valid_digits [c] = is_digit c"
| "valid_digits (c # d # r) =
     (is_digit c \<and> (if d = CHR ''_'' then valid_digits r else valid_digits (d # r)))"

definition digits_value :: "string \<Rightarrow> nat" where
  "digits_value ds = foldl (\<lambda>a c. 10 * a + ((of_char c :: nat) - 48)) 0 ds"

definition py_int :: "string \<Rightarrow> int option" where
  "py_int s =
     (let t = rev (dropWhile is_int_space (rev (dropWhile is_int_space s)));
          neg = (case t of [] \<Rightarrow> False | c # r \<Rightarrow> c = CHR ''-'');
          body = (case t of [] \<Rightarrow> [] | c # r \<Rightarrow> if c = CHR ''-'' \<or> c = CHR ''+'' then r else t)
      in if valid_digits body
         then Some ((if neg then - 1 else 1) * int (digits_value (filter is_digit body)))
         else None)"

text \<open>Decimal rendering of a natural number, as an f-string prints it.\<close>

fun show_nat :: "nat \<Rightarrow> string" where
  "show_nat n =
     (if n < 10 then [char_of (48 + n)]
      else show_nat (n div 10) @ [char_of (48 + n mod 10)])"

section \<open>Combiner: helper functions\<close>

text \<open>
  \<open>Path(p).name\<close> and \<open>Path(p).stem\<close> on a POSIX path: the last component that is neither
  empty nor a single dot, and that name without its last suffix.
\<close>

definition path_name :: "string \<Rightarrow> string" where
  "path_name p =
     (case rev (filter (\<lambda>x. x \<noteq> [] \<and> x \<noteq> ''.'') (split_on CHR ''/'' p)) of
        [] \<Rightarrow> []
      | n # _ \<Rightarrow> n)"

definition stem_of_name :: "string \<Rightarrow> string" where
  "stem_of_name name =
     (case rfind CHR ''.'' name of
        None \<Rightarrow> name
      | Some i \<Rightarrow> if 0 < i \<and> i + 1 < length name then take i name else name)"

definition path_stem :: "string \<Rightarrow> string" where
  "path_stem p = stem_of_name (path_name p)"

text \<open>
  \<open>extract_page_number_from_path\<close>: the first branch that matches decides; a ValueError
  of \<open>int\<close> is caught and gives \<open>None\<close>.
\<close>

definition page_number_of_stem :: "string \<Rightarrow> int option" where
  "page_number_of_stem stem =
     (let parts = split_on CHR ''_'' stem; n = length parts
      in if 3 \<le> n \<and> parts ! (n - 2) = ''page'' then py_int (parts ! (n - 1))
         else if 4 \<le> n \<and> parts ! (n - 3) = ''page'' \<and> parts ! (n - 1) = ''result''
         then py_int (parts ! (n - 2))
         else None)"

definition extract_page_number_from_path :: "string \<Rightarrow> int option" where
  "extract_page_number_from_path file_path_str = page_number_of_stem (path_stem file_path_str)"

text \<open>
  The fields that \<open>validate_and_extract_page_data\<close> copies out of a page result. A field
  read with \<open>.get\<close> is \<open>JNull\<close> when the key is missing.
\<close>

record page_entry =
  page_number :: json
  original_image_s3_uri :: json
  original_raw_text_s3_uri :: json
  output_format :: json
  grounded_output :: json
  extracted_output :: json
  image_descriptions :: json

definition quoted :: "string \<Rightarrow> string" where
  "quoted s = [CHR 0x27] @ s @ [CHR 0x27]"

text \<open>\<open>Inl\<close> carries the text of the \<open>error\<close> entry returned with \<open>False\<close>.\<close>

definition validate_and_extract_page_data :: "json \<Rightarrow> string + page_entry" where
  "validate_and_extract_page_data page_data =
     (case page_data of
        JObj d \<Rightarrow>
          if map_of d ''grounded_output'' = None
          then Inl (''Missing '' @ quoted ''grounded_output'' @ '' key'')
          else if map_of d ''output_format'' = None
          then Inl (''Missing '' @ quoted ''output_format'' @ '' key'')
          else Inr \<lparr> page_number = dict_get d ''page_number'',
                     original_image_s3_uri = dict_get d ''original_image_s3_uri'',
                     original_raw_text_s3_uri = dict_get d ''original_raw_text_s3_uri'',
                     output_format = dict_get d ''output_format'',
                     grounded_output = dict_get d ''grounded_output'',
                     extracted_output = dict_get d ''extracted_output'',
                     image_descriptions = dict_get_default d ''image_descriptions'' (JArr []) \<rparr>
      | _ \<Rightarrow> Inl ''Data is not a dictionary'')"

section \<open>Combiner: the environment and the aggregate\<close>

datatype processing_status = Completed | CompletedWithErrors | Failed

datatype final_status = Success | SuccessWithErrors | Failure

record load_error =
  s3_uri :: string
  reason :: string
  page_num_estimated :: "int option"

record document_metadata =
  md_run_uuid :: string
  md_original_s3_uri :: string
  md_original_base_filename :: string
  total_pages_input_to_combiner :: nat
  successful_pages_loaded :: nat
  page_load_errors :: nat
  md_processing_status :: processing_status
  md_requested_output_format :: string
  formats_in_page_results :: "string list"

record aggregated =
  document_metadata :: document_metadata
  pages :: "page_entry list"
  errors_encountered_during_load :: "load_error list"

text \<open>What a \<open>put_object\<close> call uploads: the aggregate (serialised as JSON) or a rendered text.\<close>

datatype body = AggregatedJson aggregated | Rendered string

text \<open>
  The collaborators of the combiner. \<open>get_object\<close> stands for download, decoding and
  \<open>json.loads\<close> of one key: \<open>Inl\<close> is the message of the exception, \<open>Inr\<close> the parsed
  document. \<open>put_object\<close> tells whether an upload succeeds. \<open>json_dumps\<close> is
  \<open>json.dumps(x, indent=2)\<close>.
\<close>

record s3_env =
  BUCKET_NAME :: "string option"
  FINAL_OUTPUT_PREFIX :: string
  get_object :: "string \<Rightarrow> string + json"
  put_object :: "string \<Rightarrow> body \<Rightarrow> bool"
  json_dumps :: "json \<Rightarrow> string"

record event =
  run_uuid :: "string option"
  s3_page_result_uris :: "string list option"
  original_base_filename :: "string option"
  original_s3_uri :: "string option"
  requested_output_format :: "string option"

record response =
  resp_run_uuid :: string
  final_outputs_s3_uris :: "(string \<times> string) list"
  status :: final_status
  summary :: "(string \<times> nat) list"

datatype handler_result = HttpError nat string | Combined response

section \<open>Combiner: loading the page results\<close>

record load_state =
  combined_pages_data :: "page_entry list"
  load_errors :: "load_error list"
  successful_page_count :: nat
  encountered_formats :: "string list"

definition initial_load_state :: load_state where
  "initial_load_state =
     \<lparr> combined_pages_data = [], load_errors = [], successful_page_count = 0,
       encountered_formats = [] \<rparr>"

text \<open>
  The body of the \<open>try\<close> block for one reference: \<open>Inl\<close> is the text of the exception
  that the \<open>except Exception\<close> clause receives, \<open>Inr\<close> the entry to append and its
  lower-cased format.
\<close>

definition try_load_page ::
  "s3_env \<Rightarrow> string \<Rightarrow> int option \<Rightarrow> nat \<Rightarrow> string + (page_entry \<times> string)" where
  "try_load_page env s3_key page_num_est cnt =
     (case get_object env s3_key of
        Inl msg \<Rightarrow> Inl msg
      | Inr page_data_loaded \<Rightarrow>
          (case validate_and_extract_page_data page_data_loaded of
             Inl error_message \<Rightarrow> Inl error_message
           | Inr extracted_data \<Rightarrow>
               (case output_format extracted_data of
                  JStr f \<Rightarrow>
                    Inr (if page_number extracted_data = JNull
                         then extracted_data \<lparr> page_number :=
                                (case page_num_est of
                                   Some n \<Rightarrow> JInt n
                                 | None \<Rightarrow> JInt (int cnt + 1)) \<rparr>
                         else extracted_data,
                         lower f)
                | other \<Rightarrow>
                    Inl (quoted (type_name other) @ '' object has no attribute ''
                         @ quoted ''lower''))))"

text \<open>\<open>result_uri.replace(f's3://{BUCKET_NAME}/', '')\<close>.\<close>

definition s3_key_of :: "string \<Rightarrow> string \<Rightarrow> string" where
  "s3_key_of bucket result_uri = str_remove (''s3://'' @ bucket @ ''/'') result_uri"

text \<open>One iteration of the loop over \<open>s3_page_result_uris\<close>.\<close>

definition load_step :: "s3_env \<Rightarrow> string \<Rightarrow> load_state \<Rightarrow> string \<Rightarrow> load_state" where
  "load_step env bucket st result_uri =
     (let s3_key = s3_key_of bucket result_uri;
          page_num_est = extract_page_number_from_path s3_key
      in case try_load_page env s3_key page_num_est (successful_page_count st) of
           Inr (extracted_data, page_format) \<Rightarrow>
             st \<lparr> combined_pages_data := combined_pages_data st @ [extracted_data],
                  successful_page_count := successful_page_count st + 1,
                  encountered_formats := List.insert page_format (encountered_formats st) \<rparr>
         | Inl e \<Rightarrow>
             st \<lparr> load_errors := load_errors st @
                    [\<lparr> s3_uri = result_uri,
                       reason = ''Failed to load/process result from '' @ result_uri
                                @ '': '' @ e,
                       page_num_estimated = page_num_est \<rparr>] \<rparr>)"

definition load_page_results :: "s3_env \<Rightarrow> string \<Rightarrow> string list \<Rightarrow> load_state" where
  "load_page_results env bucket uris = foldl (load_step env bucket) initial_load_state uris"

section \<open>Combiner: ordering, status and rendering\<close>

text \<open>
  \<open>list.sort(key=lambda x: x.get('page_number', float('inf')))\<close>. Every entry has the
  key, so the default is never used. The sort is stable. With fewer than two entries no
  comparison is made. Numbers (\<open>bool\<close> is 0 or 1) compare with numbers and strings with
  strings; \<open>None\<close> and dicts compare with nothing, and a comparison across kinds raises
  TypeError. Keys that are all lists are compared element by element by Python and are
  not modelled.
\<close>

fun num_key :: "json \<Rightarrow> int option" where
  "num_key (JInt i) = Some i"
| "num_key (JBool b) = Some (if b then 1 else 0)"
| "num_key _ = None"

fun str_key :: "json \<Rightarrow> string option" where
  "str_key (JStr s) = Some s"
| "str_key _ = None"

fun is_arr :: "json \<Rightarrow> bool" where
  "is_arr (JArr xs) = True"
| "is_arr _ = False"

definition sort_pages :: "page_entry list \<Rightarrow> py_error + page_entry list" where
  "sort_pages ps =
     (if length ps \<le> 1 then Inr ps
      else if list_all (\<lambda>p. num_key (page_number p) \<noteq> None) ps
      then Inr (sort_key (\<lambda>p. the (num_key (page_number p))) ps)
      else if list_all (\<lambda>p. str_key (page_number p) \<noteq> None) ps
      then Inr (sort_key (\<lambda>p. the (str_key (page_number p))) ps)
      else if list_all (\<lambda>p. is_arr (page_number p)) ps
      then Inl NotModelled
      else Inl TypeError)"

text \<open>Step 2 of the handler, in the order of its assignments.\<close>

definition overall_status :: "load_error list \<Rightarrow> nat \<Rightarrow> nat \<Rightarrow> processing_status" where
  "overall_status errs successful n_input =
     (let s0 = Completed;
          s1 = (if errs \<noteq> [] then CompletedWithErrors else s0);
          s2 = (if successful = 0 \<and> 0 < n_input then Failed else s1)
      in s2)"

text \<open>Step 5 of the handler.\<close>

definition overall_final_status :: "processing_status \<Rightarrow> bool \<Rightarrow> final_status" where
  "overall_final_status st save_error_occurred =
     (if st = Failed \<or> save_error_occurred then Failure
      else if st = CompletedWithErrors then SuccessWithErrors
      else Success)"

definition nl :: string where
  "nl = [CHR 0x0A]"

definition dq :: string where
  "dq = [CHR 0x22]"

definition page_separator :: string where
  "page_separator = nl @ nl @ ''---'' @ nl @ nl"

definition html_head :: string where
  "html_head = ''<!DOCTYPE html>'' @ nl @ ''<html>'' @ nl @ ''<head>'' @ nl
     @ ''<meta charset='' @ dq @ ''UTF-8'' @ dq @ ''>'' @ nl
     @ ''<title>Document</title>'' @ nl @ ''</head>'' @ nl @ ''<body>'' @ nl"

definition html_foot :: string where
  "html_foot = nl @ ''</body>'' @ nl @ ''</html>''"

text \<open>The div of the part at position \<open>i\<close> of \<open>enumerate(output_parts)\<close>.\<close>

definition page_div :: "nat \<Rightarrow> string \<Rightarrow> string" where
  "page_div i part =
     ''<div class='' @ dq @ ''page'' @ dq @ '' id='' @ dq @ ''page-'' @ show_nat (i + 1) @ dq
     @ ''>'' @ nl @ part @ nl @ ''</div>''"

definition page_divs :: "string list \<Rightarrow> string list" where
  "page_divs parts = map (\<lambda>(i, part). page_div i part) (enumerate 0 parts)"

text \<open>
  The loop that fills \<open>output_parts\<close>. A page whose \<open>output_format\<close> is not a string makes
  \<open>.lower()\<close> raise, which ends the generation with \<open>None\<close>. A page whose grounded output
  is falsy is skipped; a string is taken as it is, anything else goes through
  \<open>json.dumps\<close> (the requested format is one of the three text formats here).
\<close>

definition render_part :: "(json \<Rightarrow> string) \<Rightarrow> json \<Rightarrow> string" where
  "render_part dumps g = (case g of JStr s \<Rightarrow> s | _ \<Rightarrow> dumps g)"

fun output_parts :: "(json \<Rightarrow> string) \<Rightarrow> page_entry list \<Rightarrow> string list option" where
  "output_parts dumps [] = Some []"
| "output_parts dumps (page # rest) =
     (case output_format page of
        JStr f \<Rightarrow>
          if \<not> truthy (grounded_output page) then output_parts dumps rest
          else map_option ((#) (render_part dumps (grounded_output page)))
                 (output_parts dumps rest)
      | _ \<Rightarrow> None)"

text \<open>
  \<open>generate_format_from_json\<close>: \<open>Inr None\<close> is the returned \<open>None\<close>. Every exception is
  caught inside and gives \<open>None\<close>; \<open>Inl\<close> only marks an ordering that is not modelled.
\<close>

definition generate_format_from_json ::
  "(json \<Rightarrow> string) \<Rightarrow> aggregated \<Rightarrow> string \<Rightarrow> py_error + string option" where
  "generate_format_from_json dumps aggregated_json_data fmt =
     (if fmt \<notin> {''markdown'', ''html'', ''txt''} then Inr None
      else if pages aggregated_json_data = [] then Inr None
      else case sort_pages (pages aggregated_json_data) of
             Inl NotModelled \<Rightarrow> Inl NotModelled
           | Inl _ \<Rightarrow> Inr None
           | Inr sorted_pages \<Rightarrow>
               (case output_parts dumps sorted_pages of
                  None \<Rightarrow> Inr None
                | Some parts \<Rightarrow>
                    if lower fmt = ''markdown'' then Inr (Some (py_join page_separator parts))
                    else if lower fmt = ''html''
                    then Inr (Some (html_head @ py_join nl (page_divs parts) @ html_foot))
                    else if lower fmt = ''txt'' then Inr (Some (py_join (nl @ nl) parts))
                    else Inr None))"

section \<open>Combiner: the handler\<close>

definition format_extension :: "string \<Rightarrow> string" where
  "format_extension f =
     (if f = ''markdown'' then ''.md'' else if f = ''html'' then ''.html''
      else if f = ''txt'' then ''.txt'' else ''.txt'')"

text \<open>Step 3: the aggregate assembled from the loaded state and the sorted pages.\<close>

definition assemble_aggregated ::
  "string \<Rightarrow> string list \<Rightarrow> string \<Rightarrow> string \<Rightarrow> string \<Rightarrow> load_state \<Rightarrow> page_entry list
     \<Rightarrow> aggregated" where
  "assemble_aggregated uuid uris base_filename orig_uri requested st sorted_pages =
     \<lparr> document_metadata =
         \<lparr> md_run_uuid = uuid,
           md_original_s3_uri = orig_uri,
           md_original_base_filename = base_filename,
           total_pages_input_to_combiner = length uris,
           successful_pages_loaded = successful_page_count st,
           page_load_errors = length (load_errors st),
           md_processing_status =
             overall_status (load_errors st) (successful_page_count st) (length uris),
           md_requested_output_format = requested,
           formats_in_page_results = sort (encountered_formats st) \<rparr>,
       pages = sorted_pages,
       errors_encountered_during_load = load_errors st \<rparr>"

definition final_json_key :: "s3_env \<Rightarrow> string \<Rightarrow> string \<Rightarrow> string" where
  "final_json_key env uuid base_filename =
     FINAL_OUTPUT_PREFIX env @ ''/'' @ uuid @ ''/'' @ base_filename
     @ ''_aggregated_results.json''"

definition final_format_key :: "s3_env \<Rightarrow> string \<Rightarrow> string \<Rightarrow> string \<Rightarrow> string" where
  "final_format_key env uuid base_filename requested_format_lower =
     FINAL_OUTPUT_PREFIX env @ ''/'' @ uuid @ ''/'' @ base_filename @ ''_combined''
     @ format_extension requested_format_lower"

text \<open>
  Step 4b up to the upload: the \<open>put_object\<close> call that is attempted for the requested
  format, if any. Nothing is attempted for another format, when the generation returns
  \<open>None\<close> and when it returns the empty string.
\<close>

definition rendered_upload ::
  "s3_env \<Rightarrow> aggregated \<Rightarrow> string \<Rightarrow> string \<Rightarrow> string
     \<Rightarrow> py_error + (string \<times> body) list" where
  "rendered_upload env aggregated_json_data uuid base_filename requested =
     (let requested_format_lower = lower requested
      in if requested_format_lower \<in> {''markdown'', ''html'', ''txt''}
         then (case generate_format_from_json (json_dumps env) aggregated_json_data
                      requested_format_lower of
                 Inl e \<Rightarrow> Inl e
               | Inr None \<Rightarrow> Inr []
               | Inr (Some generated_content) \<Rightarrow>
                   if generated_content = [] then Inr []
                   else Inr [(final_format_key env uuid base_filename requested_format_lower,
                              Rendered generated_content)])
         else Inr [])"

text \<open>
  Steps 1 to 5 for a non-empty list of references. The second component of the result is
  the list of \<open>put_object\<close> calls made, in order. Only the sort of step 1 can raise here:
  both uploads and the generation sit in \<open>try\<close> blocks that catch every exception, so a
  failed upload only leaves its entry out of \<open>final_outputs_s3_uris\<close>.
\<close>

definition saved_uris :: "s3_env \<Rightarrow> string \<Rightarrow> string \<Rightarrow> (string \<times> body) list
    \<Rightarrow> (string \<times> string) list" where
  "saved_uris env bucket label attempts =
     concat (map (\<lambda>(k, b). if put_object env k b then [(label, ''s3://'' @ bucket @ ''/'' @ k)]
                             else []) attempts)"

definition combine_pages ::
  "s3_env \<Rightarrow> string \<Rightarrow> string \<Rightarrow> string list \<Rightarrow> string \<Rightarrow> string \<Rightarrow> string
     \<Rightarrow> py_error + (response \<times> (string \<times> body) list)" where
  "combine_pages env bucket uuid uris base_filename orig_uri requested =
     (let st = load_page_results env bucket uris
      in case sort_pages (combined_pages_data st) of
           Inl e \<Rightarrow> Inl e
         | Inr sorted_pages \<Rightarrow>
            (let aggregated_json_data =
                   assemble_aggregated uuid uris base_filename orig_uri requested st sorted_pages;
                 json_upload = (final_json_key env uuid base_filename,
                                AggregatedJson aggregated_json_data);
                 save_error_occurred =
                   (\<not> put_object env (fst json_upload) (snd json_upload))
             in case rendered_upload env aggregated_json_data uuid base_filename requested of
                  Inl e \<Rightarrow> Inl e
                | Inr attempt \<Rightarrow>
                    Inr (\<lparr> resp_run_uuid = uuid,
                           final_outputs_s3_uris =
                             saved_uris env bucket ''json'' [json_upload]
                             @ saved_uris env bucket (lower requested) attempt,
                           status =
                             overall_final_status
                               (md_processing_status (document_metadata aggregated_json_data))
                               save_error_occurred,
                           summary =
                             [(''total_pages_input'', length uris),
                              (''successful_pages_loaded'', successful_page_count st),
                              (''load_error_count'', length (load_errors st))] \<rparr>,
                         json_upload # attempt)))"

text \<open>
  \<open>lambda_handler\<close> of the combiner: the configuration check, the five required keys of
  the event in the order they are read, the early return for an empty list, then
  \<open>combine_pages\<close>.
\<close>

definition missing_key :: "s3_env \<Rightarrow> string \<Rightarrow> handler_result" where
  "missing_key env k =
     HttpError 400 (json_dumps env (JStr (''Error: Missing required key: '' @ quoted k)))"

definition lambda_handler ::
  "s3_env \<Rightarrow> event \<Rightarrow> py_error + (handler_result \<times> (string \<times> body) list)" where
  "lambda_handler env ev =
     (case BUCKET_NAME env of
        None \<Rightarrow>
          Inr (HttpError 500 (json_dumps env (JStr ''Error: S3_BUCKET_NAME not configured.'')), [])
      | Some bucket \<Rightarrow>
         if bucket = []
         then Inr (HttpError 500
                     (json_dumps env (JStr ''Error: S3_BUCKET_NAME not configured.'')), [])
         else
          (case run_uuid ev of
             None \<Rightarrow> Inr (missing_key env ''run_uuid'', [])
           | Some uuid \<Rightarrow>
          (case s3_page_result_uris ev of
             None \<Rightarrow> Inr (missing_key env ''s3_page_result_uris'', [])
           | Some uris \<Rightarrow>
          (case original_base_filename ev of
             None \<Rightarrow> Inr (missing_key env ''original_base_filename'', [])
           | Some base_filename \<Rightarrow>
          (case original_s3_uri ev of
             None \<Rightarrow> Inr (missing_key env ''original_s3_uri'', [])
           | Some orig_uri \<Rightarrow>
          (case requested_output_format ev of
             None \<Rightarrow> Inr (missing_key env ''output_format'', [])
           | Some requested \<Rightarrow>
              if uris = []
              then Inr (Combined \<lparr> resp_run_uuid = uuid,
                                  final_outputs_s3_uris = [],
                                  status = Success,
                                  summary = [(''total_pages_input'', 0),
                                             (''successful_pages'', 0),
                                             (''error_count'', 0)] \<rparr>, [])
              else (case combine_pages env bucket uuid uris base_filename orig_uri requested of
                      Inl e \<Rightarrow> Inl e
                    | Inr (r, puts) \<Rightarrow> Inr (Combined r, puts))))))))"

section \<open>Notions used to state the properties\<close>

text \<open>
  A reference loads when its object can be fetched and parsed, is a dict with the two
  required keys, and declares its output format as a string; every other case ends in the
  \<open>except\<close> clause of the loop.
\<close>

definition loads_successfully :: "s3_env \<Rightarrow> string \<Rightarrow> bool" where
  "loads_successfully env s3_key =
     (case get_object env s3_key of
        Inr (JObj d) \<Rightarrow>
          map_of d ''grounded_output'' \<noteq> None \<and>
          (case map_of d ''output_format'' of Some (JStr f) \<Rightarrow> True | _ \<Rightarrow> False)
      | _ \<Rightarrow> False)"

subsection \<open>A sample run\<close>

text \<open>
  A bucket with two page results that carry no page number, stored under the names the
  page processor writes; every other key is missing. Uploads succeed.
\<close>

definition sample_page :: "string \<Rightarrow> json" where
  "sample_page content =
     JObj [(''grounded_output'', JStr content), (''output_format'', JStr ''markdown'')]"

definition sample_env :: s3_env where
  "sample_env =
     \<lparr> BUCKET_NAME = Some ''b'',
       FINAL_OUTPUT_PREFIX = ''final-outputs'',
       get_object = (\<lambda>k. if k = ''r/d_page_1_results.json'' then Inr (sample_page ''A'')
                          else if k = ''r/d_page_2_results.json'' then Inr (sample_page ''B'')
                          else Inl ''NoSuchKey''),
       put_object = (\<lambda>k b. True),
       json_dumps = (\<lambda>j. []) \<rparr>"

definition sample_uris :: "string list" where
  "sample_uris =
     [''s3://b/r/d_page_1_results.json'', ''s3://b/r/d_page_2_results.json'',
      ''s3://b/r/d_page_3_results.json'']"

definition sample_event :: "string list \<Rightarrow> event" where
  "sample_event uris =
     \<lparr> run_uuid = Some ''u'', s3_page_result_uris = Some uris,
       original_base_filename = Some ''d'', original_s3_uri = Some ''s3://b/in/d.pdf'',
       requested_output_format = Some ''markdown'' \<rparr>"

text \<open>
  The same bucket where every upload of a rendered document fails and the upload of the
  aggregate succeeds.
\<close>

definition render_upload_fails :: s3_env where
  "render_upload_fails =
     sample_env \<lparr> put_object := (\<lambda>k b. case b of AggregatedJson a \<Rightarrow> True | Rendered s \<Rightarrow> False) \<rparr>"

section \<open>Accounting of the page references\<close>

lemma try_load_page_isl:
  "isl (try_load_page env k est c) = (\<not> loads_successfully env k)"
  by (auto simp: try_load_page_def loads_successfully_def validate_and_extract_page_data_def
        dict_get_def split: sum.splits json.splits option.splits)

lemma try_load_page_Inr:
  assumes "loads_successfully env k"
  obtains r where "try_load_page env k est c = Inr r"
  using assms try_load_page_isl [of env k est c]
  by (cases "try_load_page env k est c") auto

lemma try_load_page_Inl:
  assumes "\<not> loads_successfully env k"
  obtains e where "try_load_page env k est c = Inl e"
  using assms try_load_page_isl [of env k est c]
  by (cases "try_load_page env k est c") auto

lemma load_step_ok:
  assumes "loads_successfully env (s3_key_of bucket u)"
  shows "length (combined_pages_data (load_step env bucket st u))
           = Suc (length (combined_pages_data st))"
    and "load_errors (load_step env bucket st u) = load_errors st"
    and "successful_page_count (load_step env bucket st u) = Suc (successful_page_count st)"
proof -
  obtain r where
    "try_load_page env (s3_key_of bucket u)
       (extract_page_number_from_path (s3_key_of bucket u)) (successful_page_count st) = Inr r"
    using assms by (rule try_load_page_Inr)
  then show "length (combined_pages_data (load_step env bucket st u))
           = Suc (length (combined_pages_data st))"
    and "load_errors (load_step env bucket st u) = load_errors st"
    and "successful_page_count (load_step env bucket st u) = Suc (successful_page_count st)"
    by (simp_all add: load_step_def Let_def split: prod.splits)
qed

lemma load_step_fail:
  assumes "\<not> loads_successfully env (s3_key_of bucket u)"
  shows "combined_pages_data (load_step env bucket st u) = combined_pages_data st"
    and "map s3_uri (load_errors (load_step env bucket st u))
           = map s3_uri (load_errors st) @ [u]"
    and "successful_page_count (load_step env bucket st u) = successful_page_count st"
proof -
  obtain e where
    "try_load_page env (s3_key_of bucket u)
       (extract_page_number_from_path (s3_key_of bucket u)) (successful_page_count st) = Inl e"
    using assms by (rule try_load_page_Inl)
  then show "combined_pages_data (load_step env bucket st u) = combined_pages_data st"
    and "map s3_uri (load_errors (load_step env bucket st u))
           = map s3_uri (load_errors st) @ [u]"
    and "successful_page_count (load_step env bucket st u) = successful_page_count st"
    by (simp_all add: load_step_def Let_def)
qed

lemma load_fold_accounting:
  "length (combined_pages_data (foldl (load_step env bucket) st uris))
     = length (combined_pages_data st)
       + length (filter (\<lambda>u. loads_successfully env (s3_key_of bucket u)) uris)
   \<and> map s3_uri (load_errors (foldl (load_step env bucket) st uris))
     = map s3_uri (load_errors st)
       @ filter (\<lambda>u. \<not> loads_successfully env (s3_key_of bucket u)) uris
   \<and> successful_page_count (foldl (load_step env bucket) st uris)
     = successful_page_count st
       + length (filter (\<lambda>u. loads_successfully env (s3_key_of bucket u)) uris)"
proof (induction uris arbitrary: st)
  case Nil
  show ?case by simp
next
  case (Cons u uris)
  show ?case
  proof (cases "loads_successfully env (s3_key_of bucket u)")
    case True
    then show ?thesis
      using Cons.IH [of "load_step env bucket st u"] by (simp add: load_step_ok)
  next
    case False
    then show ?thesis
      using Cons.IH [of "load_step env bucket st u"] by (simp add: load_step_fail)
  qed
qed

lemma load_page_results_accounting:
  "length (combined_pages_data (load_page_results env bucket uris))
     = length (filter (\<lambda>u. loads_successfully env (s3_key_of bucket u)) uris)"
  "map s3_uri (load_errors (load_page_results env bucket uris))
     = filter (\<lambda>u. \<not> loads_successfully env (s3_key_of bucket u)) uris"
  "successful_page_count (load_page_results env bucket uris)
     = length (filter (\<lambda>u. loads_successfully env (s3_key_of bucket u)) uris)"
  using load_fold_accounting [of env bucket initial_load_state uris]
  by (simp_all add: load_page_results_def initial_load_state_def)

lemma load_page_results_total:
  "length (combined_pages_data (load_page_results env bucket uris))
     + length (load_errors (load_page_results env bucket uris)) = length uris"
proof -
  let ?st = "load_page_results env bucket uris"
  have "length (load_errors ?st) = length (map s3_uri (load_errors ?st))" by simp
  also have "\<dots> = length (filter (\<lambda>u. \<not> loads_successfully env (s3_key_of bucket u)) uris)"
    by (simp only: load_page_results_accounting)
  finally show ?thesis
    using load_page_results_accounting(1) [of env bucket uris]
      sum_length_filter_compl [of "\<lambda>u. loads_successfully env (s3_key_of bucket u)" uris]
    by simp
qed

text \<open>
  Claim C1. The loop over the page references runs to the end of the list whatever
  happens to a single reference: the load errors are, in order, exactly the references
  that fail to load (fetch, parse, validation or format check), every other reference adds
  one page and one to the counter of successful pages, and the number of pages plus the
  number of load errors is the number of references.
\<close>

theorem every_reference_is_loaded_or_recorded:
  "map s3_uri (load_errors (load_page_results env bucket uris))
     = filter (\<lambda>u. \<not> loads_successfully env (s3_key_of bucket u)) uris
   \<and> length (combined_pages_data (load_page_results env bucket uris))
     = length (filter (\<lambda>u. loads_successfully env (s3_key_of bucket u)) uris)
   \<and> successful_page_count (load_page_results env bucket uris)
     = length (combined_pages_data (load_page_results env bucket uris))
   \<and> length (combined_pages_data (load_page_results env bucket uris))
       + length (load_errors (load_page_results env bucket uris)) = length uris"
  using load_page_results_accounting [of env bucket uris] load_page_results_total [of env bucket uris]
  by simp

section \<open>The combiner returns once the pages are sorted\<close>

lemma sort_pages_sorted_again:
  assumes "sort_pages ps = Inr qs"
  shows "sort_pages qs = Inr qs"
proof (cases "length ps \<le> 1")
  case True
  with assms show ?thesis by (simp add: sort_pages_def)
next
  case long: False
  show ?thesis
  proof (cases "list_all (\<lambda>p. num_key (page_number p) \<noteq> None) ps")
    case True
    with long assms have qs: "qs = sort_key (\<lambda>p. the (num_key (page_number p))) ps"
      by (simp add: sort_pages_def)
    have "list_all (\<lambda>p. num_key (page_number p) \<noteq> None) qs"
      using True by (simp add: qs list_all_iff)
    moreover have "\<not> length qs \<le> 1" using long by (simp add: qs)
    moreover have "sort_key (\<lambda>p. the (num_key (page_number p))) qs = qs"
      by (simp add: qs sort_key_id_if_sorted)
    ultimately show ?thesis by (simp add: sort_pages_def)
  next
    case nonum: False
    show ?thesis
    proof (cases "list_all (\<lambda>p. str_key (page_number p) \<noteq> None) ps")
      case True
      with long nonum assms have qs: "qs = sort_key (\<lambda>p. the (str_key (page_number p))) ps"
        by (simp add: sort_pages_def)
      have "list_all (\<lambda>p. str_key (page_number p) \<noteq> None) qs"
        using True by (simp add: qs list_all_iff)
      moreover have "\<not> list_all (\<lambda>p. num_key (page_number p) \<noteq> None) qs"
        using nonum by (simp add: qs list_all_iff)
      moreover have "\<not> length qs \<le> 1" using long by (simp add: qs)
      moreover have "sort_key (\<lambda>p. the (str_key (page_number p))) qs = qs"
        by (simp add: qs sort_key_id_if_sorted)
      ultimately show ?thesis by (simp add: sort_pages_def)
    next
      case False
      with long nonum assms show ?thesis
        by (simp add: sort_pages_def split: if_splits)
    qed
  qed
qed

lemma generate_never_unmodelled:
  assumes "sort_pages ps = Inr qs" "pages agg = qs"
  shows "\<exists>c. generate_format_from_json dumps agg fmt = Inr c"
  using sort_pages_sorted_again [OF assms(1)] assms(2)
  by (simp add: generate_format_from_json_def split: option.splits)

lemma rendered_upload_returns:
  assumes "sort_pages ps = Inr qs" "pages agg = qs"
  shows "\<exists>a. rendered_upload env agg uuid base req = Inr a \<and> length a \<le> 1"
proof -
  obtain c where "generate_format_from_json (json_dumps env) agg (lower req) = Inr c"
    using generate_never_unmodelled [OF assms] by blast
  then show ?thesis
    by (simp add: rendered_upload_def Let_def split: option.splits)
qed

lemma combine_pages_returns:
  assumes "sort_pages (combined_pages_data (load_page_results env bucket uris)) = Inr qs"
  shows "\<exists>attempt. rendered_upload env
            (assemble_aggregated uuid uris base orig req (load_page_results env bucket uris) qs)
            uuid base req = Inr attempt
          \<and> combine_pages env bucket uuid uris base orig req =
          Inr (\<lparr> resp_run_uuid = uuid,
                 final_outputs_s3_uris =
                   saved_uris env bucket ''json''
                     [(final_json_key env uuid base,
                       AggregatedJson (assemble_aggregated uuid uris base orig req
                          (load_page_results env bucket uris) qs))]
                   @ saved_uris env bucket (lower req) attempt,
                 status = overall_final_status
                     (overall_status (load_errors (load_page_results env bucket uris))
                        (successful_page_count (load_page_results env bucket uris)) (length uris))
                     (\<not> put_object env (final_json_key env uuid base)
                          (AggregatedJson (assemble_aggregated uuid uris base orig req
                             (load_page_results env bucket uris) qs))),
                 summary =
                   [(''total_pages_input'', length uris),
                    (''successful_pages_loaded'',
                       successful_page_count (load_page_results env bucket uris)),
                    (''load_error_count'', length (load_errors (load_page_results env bucket uris)))] \<rparr>,
               (final_json_key env uuid base,
                AggregatedJson (assemble_aggregated uuid uris base orig req
                   (load_page_results env bucket uris) qs)) # attempt)"
proof -
  let ?agg = "assemble_aggregated uuid uris base orig req (load_page_results env bucket uris) qs"
  have "pages ?agg = qs" by (simp add: assemble_aggregated_def)
  then obtain a where a: "rendered_upload env ?agg uuid base req = Inr a"
    using rendered_upload_returns [OF assms] by blast
  have st: "md_processing_status (document_metadata ?agg) =
      overall_status (load_errors (load_page_results env bucket uris))
        (successful_page_count (load_page_results env bucket uris)) (length uris)"
    by (simp add: assemble_aggregated_def)
  show ?thesis
    using assms a st by (simp add: combine_pages_def Let_def)
qed

lemma combine_pages_raises:
  assumes "sort_pages (combined_pages_data (load_page_results env bucket uris)) = Inl e"
  shows "combine_pages env bucket uuid uris base orig req = Inl e"
  using assms by (simp add: combine_pages_def Let_def)


lemma overall_status_counts:
  assumes "length errs = b" "g + b = n" "0 < n"
  shows "overall_status errs g n
         = (if b = 0 then Completed else if b < n then CompletedWithErrors else Failed)"
proof (cases errs)
  case Nil
  with assms show ?thesis by (simp add: overall_status_def)
next
  case (Cons e es)
  with assms have "0 < b" by auto
  with assms Cons show ?thesis by (auto simp: overall_status_def)
qed

lemma overall_status_by_failures:
  assumes "uris \<noteq> []"
  shows "overall_status (load_errors (load_page_results env bucket uris))
           (successful_page_count (load_page_results env bucket uris)) (length uris)
         = (let failed = length (filter (\<lambda>u. \<not> loads_successfully env (s3_key_of bucket u)) uris)
            in if failed = 0 then Completed
               else if failed < length uris then CompletedWithErrors else Failed)"
proof -
  let ?st = "load_page_results env bucket uris"
  let ?bad = "filter (\<lambda>u. \<not> loads_successfully env (s3_key_of bucket u)) uris"
  let ?good = "filter (\<lambda>u. loads_successfully env (s3_key_of bucket u)) uris"
  have "length (load_errors ?st) = length (map s3_uri (load_errors ?st))" by simp
  also have "\<dots> = length ?bad" by (simp only: load_page_results_accounting)
  finally have e: "length (load_errors ?st) = length ?bad" .
  have c: "successful_page_count ?st = length ?good"
    by (rule load_page_results_accounting(3))
  have t: "length ?good + length ?bad = length uris"
    by (rule sum_length_filter_compl)
  have n: "0 < length uris" using assms by simp
  show ?thesis
    unfolding Let_def c by (rule overall_status_counts [OF e t n])
qed

lemma lambda_handler_Combined:
  assumes "lambda_handler env ev = Inr (Combined r, puts)"
    and "s3_page_result_uris ev = Some uris" and "uris \<noteq> []"
  obtains bucket uuid base orig req where
    "BUCKET_NAME env = Some bucket" "bucket \<noteq> []" "run_uuid ev = Some uuid"
    "original_base_filename ev = Some base" "original_s3_uri ev = Some orig"
    "requested_output_format ev = Some req"
    "combine_pages env bucket uuid uris base orig req = Inr (r, puts)"
  using assms
  by (auto simp: lambda_handler_def missing_key_def split: option.splits if_splits sum.splits)

lemma combine_pages_Inr:
  assumes "combine_pages env bucket uuid uris base orig req = Inr (r, puts)"
  obtains qs where "sort_pages (combined_pages_data (load_page_results env bucket uris)) = Inr qs"
proof (cases "sort_pages (combined_pages_data (load_page_results env bucket uris))")
  case (Inl e)
  from combine_pages_raises [OF this] assms show ?thesis by simp
next
  case (Inr qs)
  then show ?thesis by (rule that)
qed

lemma combine_pages_facts:
  assumes c: "combine_pages env bucket uuid uris base orig req = Inr (r, puts)"
    and qs: "sort_pages (combined_pages_data (load_page_results env bucket uris)) = Inr qs"
  shows "status r = overall_final_status
           (overall_status (load_errors (load_page_results env bucket uris))
              (successful_page_count (load_page_results env bucket uris)) (length uris))
           (\<not> put_object env (final_json_key env uuid base)
                (AggregatedJson (assemble_aggregated uuid uris base orig req
                   (load_page_results env bucket uris) qs)))"
    and "\<exists>attempt. puts = (final_json_key env uuid base,
                AggregatedJson (assemble_aggregated uuid uris base orig req
                   (load_page_results env bucket uris) qs)) # attempt"
proof -
  from combine_pages_returns [OF qs, of uuid base orig req] obtain attempt where
    eq: "combine_pages env bucket uuid uris base orig req =
          Inr (\<lparr> resp_run_uuid = uuid,
                 final_outputs_s3_uris =
                   saved_uris env bucket ''json''
                     [(final_json_key env uuid base,
                       AggregatedJson (assemble_aggregated uuid uris base orig req
                          (load_page_results env bucket uris) qs))]
                   @ saved_uris env bucket (lower req) attempt,
                 status = overall_final_status
                     (overall_status (load_errors (load_page_results env bucket uris))
                        (successful_page_count (load_page_results env bucket uris)) (length uris))
                     (\<not> put_object env (final_json_key env uuid base)
                          (AggregatedJson (assemble_aggregated uuid uris base orig req
                             (load_page_results env bucket uris) qs))),
                 summary =
                   [(''total_pages_input'', length uris),
                    (''successful_pages_loaded'',
                       successful_page_count (load_page_results env bucket uris)),
                    (''load_error_count'', length (load_errors (load_page_results env bucket uris)))] \<rparr>,
               (final_json_key env uuid base,
                AggregatedJson (assemble_aggregated uuid uris base orig req
                   (load_page_results env bucket uris) qs)) # attempt)"
    by blast
  from c have r: "r = fst (projr (combine_pages env bucket uuid uris base orig req))"
    and p: "puts = snd (projr (combine_pages env bucket uuid uris base orig req))"
    by simp_all
  show "status r = overall_final_status
           (overall_status (load_errors (load_page_results env bucket uris))
              (successful_page_count (load_page_results env bucket uris)) (length uris))
           (\<not> put_object env (final_json_key env uuid base)
                (AggregatedJson (assemble_aggregated uuid uris base orig req
                   (load_page_results env bucket uris) qs)))"
    unfolding r eq by simp
  show "\<exists>attempt. puts = (final_json_key env uuid base,
                AggregatedJson (assemble_aggregated uuid uris base orig req
                   (load_page_results env bucket uris) qs)) # attempt"
    unfolding p eq by simp
qed

lemma load_step_get_object:
  assumes "get_object env' = get_object env"
  shows "load_step env' bucket st u = load_step env bucket st u"
  using assms by (simp add: load_step_def try_load_page_def)

lemma load_page_results_get_object:
  assumes "get_object env' = get_object env"
  shows "load_page_results env' bucket uris = load_page_results env bucket uris"
proof -
  have "load_step env' bucket = load_step env bucket"
    using load_step_get_object [OF assms] by (intro ext)
  then show ?thesis by (simp add: load_page_results_def)
qed

lemma lambda_handler_from_combine:
  assumes "BUCKET_NAME env = Some bucket" "bucket \<noteq> []" "run_uuid ev = Some uuid"
    "s3_page_result_uris ev = Some uris" "uris \<noteq> []"
    "original_base_filename ev = Some base" "original_s3_uri ev = Some orig"
    "requested_output_format ev = Some req"
    "combine_pages env bucket uuid uris base orig req = Inr (r, puts)"
  shows "lambda_handler env ev = Inr (Combined r, puts)"
  unfolding lambda_handler_def using assms by simp

lemma status_of_combined_run:
  assumes c: "combine_pages env bucket uuid uris base orig req = Inr (r, puts)"
  obtains qs rest where
    "sort_pages (combined_pages_data (load_page_results env bucket uris)) = Inr qs"
    "puts = (final_json_key env uuid base,
             AggregatedJson (assemble_aggregated uuid uris base orig req
                (load_page_results env bucket uris) qs)) # rest"
    "status r = overall_final_status
           (md_processing_status (document_metadata (assemble_aggregated uuid uris base orig req
                (load_page_results env bucket uris) qs)))
           (\<not> put_object env (final_json_key env uuid base)
                (AggregatedJson (assemble_aggregated uuid uris base orig req
                   (load_page_results env bucket uris) qs)))"
proof -
  obtain qs where
    qs: "sort_pages (combined_pages_data (load_page_results env bucket uris)) = Inr qs"
    using c by (rule combine_pages_Inr)
  have ps: "md_processing_status (document_metadata (assemble_aggregated uuid uris base orig req
                (load_page_results env bucket uris) qs))
      = overall_status (load_errors (load_page_results env bucket uris))
          (successful_page_count (load_page_results env bucket uris)) (length uris)"
    by (simp add: assemble_aggregated_def)
  from combine_pages_facts(2) [OF c qs] obtain rest where
    p: "puts = (final_json_key env uuid base,
             AggregatedJson (assemble_aggregated uuid uris base orig req
                (load_page_results env bucket uris) qs)) # rest"
    by blast
  have st: "status r = overall_final_status
           (md_processing_status (document_metadata (assemble_aggregated uuid uris base orig req
                (load_page_results env bucket uris) qs)))
           (\<not> put_object env (final_json_key env uuid base)
                (AggregatedJson (assemble_aggregated uuid uris base orig req
                   (load_page_results env bucket uris) qs)))"
    unfolding ps by (rule combine_pages_facts(1) [OF c qs])
  from qs p st show thesis by (rule that)
qed

subsection \<open>The sample run\<close>

lemma sample_run_returns:
  "case lambda_handler sample_env (sample_event sample_uris) of
     Inr (Combined r, puts) \<Rightarrow> True | _ \<Rightarrow> False"
  by code_simp

lemma sample_run_obtain:
  obtains r puts where
    "lambda_handler sample_env (sample_event sample_uris) = Inr (Combined r, puts)"
proof (cases "lambda_handler sample_env (sample_event sample_uris)")
  case (Inl e)
  with sample_run_returns show ?thesis by simp
next
  case (Inr p)
  obtain h puts where p: "p = (h, puts)" by (cases p)
  show ?thesis
  proof (cases h)
    case (HttpError n s)
    with sample_run_returns Inr p show ?thesis by simp
  next
    case (Combined r)
    with Inr p that show ?thesis by simp
  qed
qed

lemma sample_failed_count:
  "length (filter (\<lambda>u. \<not> loads_successfully sample_env (s3_key_of ''b'' u)) sample_uris) = 1"
  by code_simp

lemma sample_status:
  "case lambda_handler sample_env (sample_event sample_uris) of
     Inr (Combined r, puts) \<Rightarrow> status r = SuccessWithErrors \<and> length puts = 2 | _ \<Rightarrow> False"
  by code_simp

section \<open>Overall status\<close>

text \<open>
  Claim C2. When the handler returns for a non-empty list of references, the aggregate it
  uploads first carries the status \<open>Completed\<close> if no reference failed to load,
  \<open>CompletedWithErrors\<close> if some but not all failed, and \<open>Failed\<close> if all failed. For
  an empty list the handler returns \<open>Success\<close> with all counts zero, an empty map of
  outputs and no upload at all.
\<close>

theorem overall_status_of_run:
  "(lambda_handler env ev = Inr (Combined r, puts) \<longrightarrow> BUCKET_NAME env = Some bucket \<longrightarrow>
      s3_page_result_uris ev = Some uris \<longrightarrow> uris \<noteq> [] \<longrightarrow>
      (\<exists>k agg rest. puts = (k, AggregatedJson agg) # rest \<and>
         md_processing_status (document_metadata agg)
           = (let failed = length (filter (\<lambda>u. \<not> loads_successfully env (s3_key_of bucket u)) uris)
              in if failed = 0 then Completed
                 else if failed < length uris then CompletedWithErrors else Failed)))
   \<and> (BUCKET_NAME env = Some bucket \<longrightarrow> bucket \<noteq> [] \<longrightarrow> run_uuid ev = Some uuid \<longrightarrow>
      s3_page_result_uris ev = Some [] \<longrightarrow> original_base_filename ev \<noteq> None \<longrightarrow>
      original_s3_uri ev \<noteq> None \<longrightarrow> requested_output_format ev \<noteq> None \<longrightarrow>
      lambda_handler env ev =
        Inr (Combined \<lparr> resp_run_uuid = uuid, final_outputs_s3_uris = [], status = Success,
                        summary = [(''total_pages_input'', 0), (''successful_pages'', 0),
                                   (''error_count'', 0)] \<rparr>, []))"
proof (intro conjI impI)
  assume h: "lambda_handler env ev = Inr (Combined r, puts)" "BUCKET_NAME env = Some bucket"
    "s3_page_result_uris ev = Some uris" "uris \<noteq> []"
  from h(1,3,4) obtain bucket' uuid base orig req where
    b: "BUCKET_NAME env = Some bucket'"
    and c: "combine_pages env bucket' uuid uris base orig req = Inr (r, puts)"
    by (rule lambda_handler_Combined)
  from b h(2) have [simp]: "bucket' = bucket" by simp
  from c have c': "combine_pages env bucket uuid uris base orig req = Inr (r, puts)" by simp
  obtain qs where
    qs: "sort_pages (combined_pages_data (load_page_results env bucket uris)) = Inr qs"
    using c' by (rule combine_pages_Inr)
  let ?agg = "assemble_aggregated uuid uris base orig req (load_page_results env bucket uris) qs"
  from combine_pages_returns [OF qs, of uuid base orig req] c'
  obtain attempt where "puts = (final_json_key env uuid base, AggregatedJson ?agg) # attempt"
    by auto
  moreover have "md_processing_status (document_metadata ?agg)
      = (let failed = length (filter (\<lambda>u. \<not> loads_successfully env (s3_key_of bucket u)) uris)
         in if failed = 0 then Completed
            else if failed < length uris then CompletedWithErrors else Failed)"
    using overall_status_by_failures [OF h(4), of env bucket]
    by (simp add: assemble_aggregated_def)
  ultimately show "\<exists>k agg rest. puts = (k, AggregatedJson agg) # rest \<and>
         md_processing_status (document_metadata agg)
           = (let failed = length (filter (\<lambda>u. \<not> loads_successfully env (s3_key_of bucket u)) uris)
              in if failed = 0 then Completed
                 else if failed < length uris then CompletedWithErrors else Failed)"
    by blast
next
  assume "BUCKET_NAME env = Some bucket" "bucket \<noteq> []" "run_uuid ev = Some uuid"
    "s3_page_result_uris ev = Some []" "original_base_filename ev \<noteq> None"
    "original_s3_uri ev \<noteq> None" "requested_output_format ev \<noteq> None"
  then show "lambda_handler env ev =
        Inr (Combined \<lparr> resp_run_uuid = uuid, final_outputs_s3_uris = [], status = Success,
                        summary = [(''total_pages_input'', 0), (''successful_pages'', 0),
                                   (''error_count'', 0)] \<rparr>, [])"
    by (auto simp: lambda_handler_def)
qed

theorem overall_status_of_run_witness:
  "(\<exists>r puts k agg rest.
      lambda_handler sample_env (sample_event sample_uris) = Inr (Combined r, puts) \<and>
      puts = (k, AggregatedJson agg) # rest \<and>
      md_processing_status (document_metadata agg) = CompletedWithErrors)
   \<and> lambda_handler sample_env (sample_event []) =
        Inr (Combined \<lparr> resp_run_uuid = ''u'', final_outputs_s3_uris = [], status = Success,
                        summary = [(''total_pages_input'', 0), (''successful_pages'', 0),
                                   (''error_count'', 0)] \<rparr>, [])"
proof -
  obtain r puts where
    rp: "lambda_handler sample_env (sample_event sample_uris) = Inr (Combined r, puts)"
    by (rule sample_run_obtain)
  have b: "BUCKET_NAME sample_env = Some ''b''" by (simp add: sample_env_def)
  have u: "s3_page_result_uris (sample_event sample_uris) = Some sample_uris"
    by (simp add: sample_event_def)
  have ne: "sample_uris \<noteq> []" by (simp add: sample_uris_def)
  have n: "length sample_uris = 3" by (simp add: sample_uris_def)
  note t = overall_status_of_run [of sample_env "sample_event sample_uris" r puts "''b''"
      sample_uris "''u''"]
  from t rp b u ne
  have "\<exists>k agg rest. puts = (k, AggregatedJson agg) # rest \<and>
    md_processing_status (document_metadata agg) = CompletedWithErrors"
    unfolding sample_failed_count n Let_def by simp
  then obtain k agg rest where ka: "puts = (k, AggregatedJson agg) # rest"
    "md_processing_status (document_metadata agg) = CompletedWithErrors"
    by (elim exE conjE)
  have first: "\<exists>r puts k agg rest.
      lambda_handler sample_env (sample_event sample_uris) = Inr (Combined r, puts) \<and>
      puts = (k, AggregatedJson agg) # rest \<and>
      md_processing_status (document_metadata agg) = CompletedWithErrors"
    by (rule exI [of _ r], rule exI [of _ puts], rule exI [of _ k], rule exI [of _ agg],
        rule exI [of _ rest]) (intro conjI rp ka)
  have e1: "s3_page_result_uris (sample_event []) = Some []" by (simp add: sample_event_def)
  have e2: "run_uuid (sample_event []) = Some ''u''" by (simp add: sample_event_def)
  have e3: "original_base_filename (sample_event []) \<noteq> None" by (simp add: sample_event_def)
  have e4: "original_s3_uri (sample_event []) \<noteq> None" by (simp add: sample_event_def)
  have e5: "requested_output_format (sample_event []) \<noteq> None" by (simp add: sample_event_def)
  have second: "lambda_handler sample_env (sample_event []) =
        Inr (Combined \<lparr> resp_run_uuid = ''u'', final_outputs_s3_uris = [], status = Success,
                        summary = [(''total_pages_input'', 0), (''successful_pages'', 0),
                                   (''error_count'', 0)] \<rparr>, [])"
    using overall_status_of_run [of sample_env "sample_event []" r puts "''b''" "[]" "''u''"]
      b e1 e2 e3 e4 e5
    by simp
  from first second show ?thesis by (rule conjI)
qed

section \<open>Splitting and joining\<close>

lemma split_on_not_Nil: "split_on c s \<noteq> []"
  by (induction s) (auto split: list.splits)

lemma split_on_append_sep:
  "split_on c (xs @ c # ys) = split_on c xs @ split_on c ys"
proof (induction xs)
  case Nil
  show ?case by simp
next
  case (Cons x xs)
  obtain p ps where p: "split_on c xs = p # ps"
    using split_on_not_Nil [of c xs] by (cases "split_on c xs") auto
  with Cons show ?case by simp
qed

lemma split_on_no_sep: "c \<notin> set s \<Longrightarrow> split_on c s = [s]"
  by (induction s) auto

lemma py_join_Cons_head: "py_join sep ((x # p) # ps) = x # py_join sep (p # ps)"
  by (cases ps) auto

lemma py_join_split_on: "py_join [c] (split_on c s) = s"
proof (induction s)
  case Nil
  show ?case by simp
next
  case (Cons x xs)
  obtain p ps where p: "split_on c xs = p # ps"
    using split_on_not_Nil [of c xs] by (cases "split_on c xs") auto
  show ?case
  proof (cases "x = c")
    case True
    with Cons p show ?thesis by simp
  next
    case False
    with Cons p show ?thesis by (simp add: py_join_Cons_head)
  qed
qed

lemma py_join_append:
  "xs \<noteq> [] \<Longrightarrow> ys \<noteq> [] \<Longrightarrow> py_join sep (xs @ ys) = py_join sep xs @ sep @ py_join sep ys"
proof (induction sep xs rule: py_join.induct)
  case (1 sep)
  then show ?case by simp
next
  case (2 sep p)
  then show ?case by (cases ys) auto
next
  case (3 sep p q ps)
  then show ?case by simp
qed

lemma last_two:
  assumes "2 \<le> length xs"
  obtains ys a b where "xs = ys @ [a, b]"
proof -
  from assms obtain zs b where z: "xs = zs @ [b]" by (cases xs rule: rev_cases) auto
  with assms obtain ys a where "zs = ys @ [a]" by (cases zs rule: rev_cases) auto
  with z that show thesis by simp
qed

lemma py_int_results: "py_int ''results'' = None"
  by code_simp

lemma page_number_of_stem_results: "page_number_of_stem (pre @ ''_results'') = None"
proof -
  have s: "split_on CHR ''_'' (pre @ ''_results'') = split_on CHR ''_'' pre @ [''results'']"
    using split_on_append_sep [of "CHR ''_''" pre "''results''"]
    by (simp add: split_on_no_sep)
  obtain ys a where y: "split_on CHR ''_'' pre = ys @ [a]"
    using split_on_not_Nil [of "CHR ''_''" pre]
    by (cases "split_on CHR ''_'' pre" rule: rev_cases) auto
  show ?thesis
    unfolding page_number_of_stem_def s y
    by (simp add: Let_def nth_append py_int_results)
qed

lemma page_number_of_stem_Some:
  assumes "page_number_of_stem stem = Some n"
  shows "\<exists>pre ds. (stem = pre @ ''_page_'' @ ds \<or> stem = pre @ ''_page_'' @ ds @ ''_result'')
            \<and> py_int ds = Some n"
proof -
  let ?parts = "split_on CHR ''_'' stem"
  let ?n = "length ?parts"
  have j: "py_join ''_'' ?parts = stem" by (rule py_join_split_on)
  show ?thesis
  proof (cases "3 \<le> ?n \<and> ?parts ! (?n - 2) = ''page''")
    case True
    then obtain ys a b where p: "?parts = ys @ [a, b]" by (auto intro: last_two [of ?parts])
    with True have a: "a = ''page''" and ne: "ys \<noteq> []" by (auto simp: nth_append)
    from assms True p have i: "py_int b = Some n"
      by (simp add: page_number_of_stem_def Let_def nth_append)
    from j p a ne have "stem = py_join ''_'' ys @ ''_page_'' @ b"
      by (simp add: py_join_append)
    with i show ?thesis by blast
  next
    case False
    with assms have c: "4 \<le> ?n" "?parts ! (?n - 3) = ''page''" "?parts ! (?n - 1) = ''result''"
      and i: "py_int (?parts ! (?n - 2)) = Some n"
      by (auto simp: page_number_of_stem_def Let_def split: if_splits)
    from c(1) obtain ys a b where p: "?parts = ys @ [a, b]" by (auto intro: last_two [of ?parts])
    with c(1) have "1 \<le> length ys" by simp
    then obtain zs z where z: "ys = zs @ [z]" by (cases ys rule: rev_cases) auto
    with p c have ne: "zs \<noteq> []" by auto
    from p z c have e: "z = ''page''" "b = ''result''" by (auto simp: nth_append)
    from p z i have i': "py_int a = Some n" by (simp add: nth_append)
    from p z have "?parts = zs @ [z, a, b]" by simp
    with j e ne have "stem = py_join ''_'' zs @ ''_page_'' @ a @ ''_result''"
      by (simp add: py_join_append)
    with i' show ?thesis by blast
  qed
qed

lemma digit_char_not_slash:
  fixes m :: nat
  assumes "m < 10"
  shows "char_of (48 + m) \<noteq> CHR ''/''"
proof
  assume e: "char_of (48 + m) = CHR ''/''"
  have "of_char (char_of (48 + m) :: char) = (48 + m) mod 256" by (simp only: of_char_of)
  with assms have "of_char (char_of (48 + m) :: char) = 48 + m" by simp
  moreover have "of_char CHR ''/'' = (47::nat)" by simp
  ultimately show False using e by simp
qed

lemma show_nat_no_slash: "CHR ''/'' \<notin> set (show_nat k)"
proof (induction k rule: show_nat.induct)
  case (1 n)
  show ?case
  proof (cases "n < 10")
    case True
    then show ?thesis using digit_char_not_slash [of n] by (subst show_nat.simps) simp
  next
    case False
    then show ?thesis
      using 1 digit_char_not_slash [of "n mod 10"] by (subst show_nat.simps) simp
  qed
qed

lemma rfind_append:
  "rfind c (xs @ ys) =
     (case rfind c ys of Some i \<Rightarrow> Some (length xs + i) | None \<Rightarrow> rfind c xs)"
  by (induction xs) (auto split: option.splits)

lemma path_name_last:
  assumes "CHR ''/'' \<notin> set name" and "name \<noteq> []" and "name \<noteq> ''.''"
  shows "path_name (dir @ ''/'' @ name) = name"
proof -
  have "split_on CHR ''/'' (dir @ ''/'' @ name) = split_on CHR ''/'' dir @ [name]"
    using split_on_append_sep [of "CHR ''/''" dir name] assms(1)
    by (simp add: split_on_no_sep)
  with assms(2,3) show ?thesis by (simp add: path_name_def)
qed

lemma stem_of_name_json:
  assumes "s \<noteq> []"
  shows "stem_of_name (s @ ''.json'') = s"
proof -
  have "rfind CHR ''.'' ''.json'' = Some 0" by simp
  then have "rfind CHR ''.'' (s @ ''.json'') = Some (length s)"
    by (simp add: rfind_append)
  with assms show ?thesis by (simp add: stem_of_name_def)
qed

lemma path_stem_results_file:
  assumes "CHR ''/'' \<notin> set base"
  shows "path_stem (dir @ ''/'' @ base @ ''_page_'' @ show_nat k @ ''_results.json'')
           = base @ ''_page_'' @ show_nat k @ ''_results''"
proof -
  define s where "s = base @ ''_page_'' @ show_nat k @ ''_results''"
  have s1: "CHR ''/'' \<notin> set (s @ ''.json'')"
    using assms show_nat_no_slash [of k] by (simp add: s_def)
  have s2: "s \<noteq> []" by (simp add: s_def)
  have s3: "s @ ''.json'' \<noteq> []" by simp
  have s4: "s @ ''.json'' \<noteq> ''.''" using s2 by (cases s) auto
  have n: "path_name (dir @ ''/'' @ s @ ''.json'') = s @ ''.json''"
    using s1 s3 s4 by (rule path_name_last)
  have "stem_of_name (s @ ''.json'') = s" using s2 by (rule stem_of_name_json)
  with n have "path_stem (dir @ ''/'' @ s @ ''.json'') = s" by (simp only: path_stem_def)
  then show ?thesis by (simp add: s_def)
qed

lemma load_step_without_estimate:
  assumes e: "extract_page_number_from_path (s3_key_of bucket uri) = None"
  shows "\<not> loads_successfully env (s3_key_of bucket uri) \<Longrightarrow>
           map page_num_estimated (load_errors (load_step env bucket st uri))
             = map page_num_estimated (load_errors st) @ [None]"
    and "get_object env (s3_key_of bucket uri) = Inr (JObj d) \<Longrightarrow>
         loads_successfully env (s3_key_of bucket uri) \<Longrightarrow>
         map_of d ''page_number'' = None \<or> map_of d ''page_number'' = Some JNull \<Longrightarrow>
           map page_number (combined_pages_data (load_step env bucket st uri))
             = map page_number (combined_pages_data st)
               @ [JInt (int (successful_page_count st) + 1)]"
proof -
  assume "\<not> loads_successfully env (s3_key_of bucket uri)"
  then obtain m where
    "try_load_page env (s3_key_of bucket uri) None (successful_page_count st) = Inl m"
    by (rule try_load_page_Inl)
  then show "map page_num_estimated (load_errors (load_step env bucket st uri))
             = map page_num_estimated (load_errors st) @ [None]"
    by (simp add: load_step_def Let_def e)
next
  assume g: "get_object env (s3_key_of bucket uri) = Inr (JObj d)"
    and l: "loads_successfully env (s3_key_of bucket uri)"
    and n: "map_of d ''page_number'' = None \<or> map_of d ''page_number'' = Some JNull"
  from n have pn: "dict_get d ''page_number'' = JNull" by (auto simp: dict_get_def)
  from l g obtain f where f: "map_of d ''output_format'' = Some (JStr f)"
    and go: "map_of d ''grounded_output'' \<noteq> None"
    by (auto simp: loads_successfully_def split: option.splits json.splits)
  from f have of: "dict_get d ''output_format'' = JStr f" by (simp add: dict_get_def)
  have "\<exists>page. try_load_page env (s3_key_of bucket uri) None (successful_page_count st)
          = Inr (page, lower f) \<and> page_number page = JInt (int (successful_page_count st) + 1)"
    using g f go pn of
    by (simp add: try_load_page_def validate_and_extract_page_data_def)
  then obtain page where
    "try_load_page env (s3_key_of bucket uri) None (successful_page_count st)
          = Inr (page, lower f)"
    "page_number page = JInt (int (successful_page_count st) + 1)"
    by (elim exE conjE)
  then show "map page_number (combined_pages_data (load_step env bucket st uri))
             = map page_number (combined_pages_data st)
               @ [JInt (int (successful_page_count st) + 1)]"
    by (simp add: load_step_def Let_def e)
qed

lemma sample_keys:
  "s3_key_of ''b'' ''s3://b/r/d_page_3_results.json'' = ''r/d_page_3_results.json''"
  "s3_key_of ''b'' ''s3://b/r/d_page_2_results.json'' = ''r/d_page_2_results.json''"
  by code_simp+

lemma sample_stems:
  "path_stem ''r/d_page_3_results.json'' = ''d_page_3'' @ ''_results''"
  "path_stem ''r/d_page_2_results.json'' = ''d_page_2'' @ ''_results''"
  by code_simp+

lemma sample_estimate: "extract_page_number_from_path ''r/d_page_7_result.json'' = Some 7"
  by code_simp

lemma sample_loads:
  "\<not> loads_successfully sample_env ''r/d_page_3_results.json''"
  "loads_successfully sample_env ''r/d_page_2_results.json''"
  by code_simp+

section \<open>Final status\<close>

text \<open>
  Claim C5. When the handler returns for a non-empty list of references, its final status
  is \<open>Failure\<close> if the overall status of the uploaded aggregate is \<open>Failed\<close> or the upload
  of that aggregate failed, \<open>SuccessWithErrors\<close> if the overall status is
  \<open>CompletedWithErrors\<close>, and \<open>Success\<close> otherwise. Whatever becomes of the rendered
  artifact does not change it: in every environment that reads the same objects and gives
  the upload of the aggregate the same outcome (other uploads and the serialisation of the
  rendered text may differ), the handler returns the same status.
\<close>

theorem final_status_of_run:
  assumes "lambda_handler env ev = Inr (Combined r, puts)"
    and "s3_page_result_uris ev = Some uris" and "uris \<noteq> []"
  shows "\<exists>k agg rest. puts = (k, AggregatedJson agg) # rest \<and>
      status r = (if md_processing_status (document_metadata agg) = Failed
                     \<or> \<not> put_object env k (AggregatedJson agg) then Failure
                  else if md_processing_status (document_metadata agg) = CompletedWithErrors
                  then SuccessWithErrors else Success) \<and>
      (\<forall>env'. BUCKET_NAME env' = BUCKET_NAME env \<and>
              FINAL_OUTPUT_PREFIX env' = FINAL_OUTPUT_PREFIX env \<and>
              get_object env' = get_object env \<and>
              put_object env' k (AggregatedJson agg) = put_object env k (AggregatedJson agg)
          \<longrightarrow> (\<exists>r' puts'. lambda_handler env' ev = Inr (Combined r', puts') \<and>
                 status r' = status r))"
proof -
  from assms obtain bucket uuid base orig req where
    b: "BUCKET_NAME env = Some bucket" and bne: "bucket \<noteq> []"
    and e1: "run_uuid ev = Some uuid" and e2: "original_base_filename ev = Some base"
    and e3: "original_s3_uri ev = Some orig" and e4: "requested_output_format ev = Some req"
    and c: "combine_pages env bucket uuid uris base orig req = Inr (r, puts)"
    by (rule lambda_handler_Combined)
  from c obtain qs rest where
    qs: "sort_pages (combined_pages_data (load_page_results env bucket uris)) = Inr qs"
    and p: "puts = (final_json_key env uuid base,
             AggregatedJson (assemble_aggregated uuid uris base orig req
                (load_page_results env bucket uris) qs)) # rest"
    and s: "status r = overall_final_status
           (md_processing_status (document_metadata (assemble_aggregated uuid uris base orig req
                (load_page_results env bucket uris) qs)))
           (\<not> put_object env (final_json_key env uuid base)
                (AggregatedJson (assemble_aggregated uuid uris base orig req
                   (load_page_results env bucket uris) qs)))"
    by (rule status_of_combined_run)
  define agg where
    "agg = assemble_aggregated uuid uris base orig req (load_page_results env bucket uris) qs"
  define k where "k = final_json_key env uuid base"
  note p' = p [folded agg_def k_def]
  note s' = s [folded agg_def k_def]
  have formula: "status r = (if md_processing_status (document_metadata agg) = Failed
                     \<or> \<not> put_object env k (AggregatedJson agg) then Failure
                  else if md_processing_status (document_metadata agg) = CompletedWithErrors
                  then SuccessWithErrors else Success)"
    unfolding s' overall_final_status_def by (rule refl)
  have indep: "\<exists>r' puts'. lambda_handler env' ev = Inr (Combined r', puts') \<and>
                 status r' = status r"
    if h: "BUCKET_NAME env' = BUCKET_NAME env \<and>
              FINAL_OUTPUT_PREFIX env' = FINAL_OUTPUT_PREFIX env \<and>
              get_object env' = get_object env \<and>
              put_object env' k (AggregatedJson agg) = put_object env k (AggregatedJson agg)"
    for env'
  proof -
    from h have hb: "BUCKET_NAME env' = Some bucket" using b by simp
    from h have hg: "get_object env' = get_object env" by blast
    from h have hp: "put_object env' k (AggregatedJson agg) = put_object env k (AggregatedJson agg)"
      by blast
    from h have hk: "final_json_key env' uuid base = k"
      unfolding final_json_key_def k_def by simp
    have ld: "load_page_results env' bucket uris = load_page_results env bucket uris"
      using hg by (rule load_page_results_get_object)
    have qs': "sort_pages (combined_pages_data (load_page_results env' bucket uris)) = Inr qs"
      unfolding ld by (rule qs)
    obtain x where x: "combine_pages env' bucket uuid uris base orig req = Inr x"
      using combine_pages_returns [OF qs', of uuid base orig req] by blast
    obtain r' puts' where x': "x = (r', puts')" by (cases x)
    have c': "combine_pages env' bucket uuid uris base orig req = Inr (r', puts')"
      unfolding x x' by (rule refl)
    from c' obtain qs2 rest2 where
      qs2: "sort_pages (combined_pages_data (load_page_results env' bucket uris)) = Inr qs2"
      and s2: "status r' = overall_final_status
           (md_processing_status (document_metadata (assemble_aggregated uuid uris base orig req
                (load_page_results env' bucket uris) qs2)))
           (\<not> put_object env' (final_json_key env' uuid base)
                (AggregatedJson (assemble_aggregated uuid uris base orig req
                   (load_page_results env' bucket uris) qs2)))"
      by (rule status_of_combined_run)
    from qs' qs2 have same_qs: "qs2 = qs" by simp
    have s2': "status r' = overall_final_status (md_processing_status (document_metadata agg))
                 (\<not> put_object env' k (AggregatedJson agg))"
      using s2 unfolding same_qs ld hk agg_def [symmetric] .
    have same: "status r' = status r"
      unfolding s2' s' hp by (rule refl)
    have "lambda_handler env' ev = Inr (Combined r', puts')"
      using hb bne e1 assms(2) assms(3) e2 e3 e4 c' by (rule lambda_handler_from_combine)
    with same show ?thesis by blast
  qed
  have all_indep: "\<forall>env'. BUCKET_NAME env' = BUCKET_NAME env \<and>
              FINAL_OUTPUT_PREFIX env' = FINAL_OUTPUT_PREFIX env \<and>
              get_object env' = get_object env \<and>
              put_object env' k (AggregatedJson agg) = put_object env k (AggregatedJson agg)
          \<longrightarrow> (\<exists>r' puts'. lambda_handler env' ev = Inr (Combined r', puts') \<and>
                 status r' = status r)"
    using indep by (intro allI impI)
  show ?thesis
    by (rule exI [of _ k], rule exI [of _ agg], rule exI [of _ rest])
       (intro conjI p' formula all_indep)
qed

theorem final_status_of_run_witness:
  "\<exists>r puts r' puts'.
      lambda_handler sample_env (sample_event sample_uris) = Inr (Combined r, puts) \<and>
      status r = SuccessWithErrors \<and>
      lambda_handler render_upload_fails (sample_event sample_uris) = Inr (Combined r', puts') \<and>
      status r' = SuccessWithErrors"
proof -
  obtain r puts where
    rp: "lambda_handler sample_env (sample_event sample_uris) = Inr (Combined r, puts)"
    by (rule sample_run_obtain)
  from sample_status rp have s: "status r = SuccessWithErrors" by simp
  have u: "s3_page_result_uris (sample_event sample_uris) = Some sample_uris"
    by (simp add: sample_event_def)
  have ne: "sample_uris \<noteq> []" by (simp add: sample_uris_def)
  from final_status_of_run [OF rp u ne]
  obtain k agg rest where
    a: "\<forall>env'. BUCKET_NAME env' = BUCKET_NAME sample_env \<and>
                   FINAL_OUTPUT_PREFIX env' = FINAL_OUTPUT_PREFIX sample_env \<and>
                   get_object env' = get_object sample_env \<and>
                   put_object env' k (AggregatedJson agg) = put_object sample_env k (AggregatedJson agg)
               \<longrightarrow> (\<exists>r' puts'. lambda_handler env' (sample_event sample_uris) = Inr (Combined r', puts') \<and>
                      status r' = status r)"
    by (elim exE conjE)
  have c: "BUCKET_NAME render_upload_fails = BUCKET_NAME sample_env \<and>
        FINAL_OUTPUT_PREFIX render_upload_fails = FINAL_OUTPUT_PREFIX sample_env \<and>
        get_object render_upload_fails = get_object sample_env \<and>
        put_object render_upload_fails k (AggregatedJson agg)
          = put_object sample_env k (AggregatedJson agg)"
    by (simp add: render_upload_fails_def sample_env_def)
  from a [rule_format, OF c] obtain r' puts' where
    r': "lambda_handler render_upload_fails (sample_event sample_uris) = Inr (Combined r', puts')"
    "status r' = status r"
    by (elim exE conjE)
  from r'(2) s have s': "status r' = SuccessWithErrors" by simp
  show ?thesis
    by (rule exI [of _ r], rule exI [of _ puts], rule exI [of _ r'], rule exI [of _ puts'])
       (intro conjI rp s r'(1) s')
qed

section \<open>The page-number estimator\<close>

text \<open>
  Claim C10. The estimator returns a number only for a path whose stem ends in
  \<open>_page_N\<close> or \<open>_page_N_result\<close>, where \<open>N\<close> is the text that \<open>int\<close> reads as that number.
  For every path whose stem ends in \<open>_results\<close> it returns \<open>None\<close>; this covers every key
  \<open>dir/base_page_k_results.json\<close>, the name under which the page processor stores its
  result. One iteration of the loading loop on such a reference therefore records
  \<open>None\<close> as the estimated page number when the reference fails to load, and numbers a
  loaded page that has no page number of its own with the counter of loaded pages plus one.
\<close>

theorem estimator_misses_results_suffix:
  "(extract_page_number_from_path p = Some n \<longrightarrow>
      (\<exists>pre ds. (path_stem p = pre @ ''_page_'' @ ds
                   \<or> path_stem p = pre @ ''_page_'' @ ds @ ''_result'')
                 \<and> py_int ds = Some n))
   \<and> (path_stem p = pre @ ''_results'' \<longrightarrow> extract_page_number_from_path p = None)
   \<and> (CHR ''/'' \<notin> set base \<longrightarrow>
        extract_page_number_from_path
          (dir @ ''/'' @ base @ ''_page_'' @ show_nat k @ ''_results.json'') = None)
   \<and> (path_stem (s3_key_of bucket uri) = pre @ ''_results'' \<longrightarrow>
        (\<not> loads_successfully env (s3_key_of bucket uri) \<longrightarrow>
           map page_num_estimated (load_errors (load_step env bucket st uri))
             = map page_num_estimated (load_errors st) @ [None])
        \<and> (get_object env (s3_key_of bucket uri) = Inr (JObj d) \<longrightarrow>
           loads_successfully env (s3_key_of bucket uri) \<longrightarrow>
           map_of d ''page_number'' = None \<or> map_of d ''page_number'' = Some JNull \<longrightarrow>
           map page_number (combined_pages_data (load_step env bucket st uri))
             = map page_number (combined_pages_data st)
               @ [JInt (int (successful_page_count st) + 1)]))"
proof (intro conjI impI)
  assume "extract_page_number_from_path p = Some n"
  then have "page_number_of_stem (path_stem p) = Some n"
    by (simp only: extract_page_number_from_path_def)
  then show "\<exists>pre ds. (path_stem p = pre @ ''_page_'' @ ds
                   \<or> path_stem p = pre @ ''_page_'' @ ds @ ''_result'')
                 \<and> py_int ds = Some n"
    by (rule page_number_of_stem_Some)
next
  assume "path_stem p = pre @ ''_results''"
  then show "extract_page_number_from_path p = None"
    by (simp only: extract_page_number_from_path_def page_number_of_stem_results)
next
  assume "CHR ''/'' \<notin> set base"
  then have "path_stem (dir @ ''/'' @ base @ ''_page_'' @ show_nat k @ ''_results.json'')
           = base @ ''_page_'' @ show_nat k @ ''_results''"
    by (rule path_stem_results_file)
  then have "path_stem (dir @ ''/'' @ base @ ''_page_'' @ show_nat k @ ''_results.json'')
           = (base @ ''_page_'' @ show_nat k) @ ''_results''"
    by simp
  then show "extract_page_number_from_path
          (dir @ ''/'' @ base @ ''_page_'' @ show_nat k @ ''_results.json'') = None"
    by (simp only: extract_page_number_from_path_def page_number_of_stem_results)
next
  assume "path_stem (s3_key_of bucket uri) = pre @ ''_results''"
    and "\<not> loads_successfully env (s3_key_of bucket uri)"
  then have e: "extract_page_number_from_path (s3_key_of bucket uri) = None"
    by (simp only: extract_page_number_from_path_def page_number_of_stem_results)
  from e \<open>\<not> loads_successfully env (s3_key_of bucket uri)\<close>
  show "map page_num_estimated (load_errors (load_step env bucket st uri))
             = map page_num_estimated (load_errors st) @ [None]"
    by (rule load_step_without_estimate(1))
next
  assume s: "path_stem (s3_key_of bucket uri) = pre @ ''_results''"
    and g: "get_object env (s3_key_of bucket uri) = Inr (JObj d)"
    and l: "loads_successfully env (s3_key_of bucket uri)"
    and n: "map_of d ''page_number'' = None \<or> map_of d ''page_number'' = Some JNull"
  from s have e: "extract_page_number_from_path (s3_key_of bucket uri) = None"
    by (simp only: extract_page_number_from_path_def page_number_of_stem_results)
  from e g l n
  show "map page_number (combined_pages_data (load_step env bucket st uri))
             = map page_number (combined_pages_data st)
               @ [JInt (int (successful_page_count st) + 1)]"
    by (rule load_step_without_estimate(2))
qed

theorem estimator_misses_results_suffix_witness:
  "(\<exists>pre ds. (path_stem ''r/d_page_7_result.json'' = pre @ ''_page_'' @ ds
               \<or> path_stem ''r/d_page_7_result.json'' = pre @ ''_page_'' @ ds @ ''_result'')
             \<and> py_int ds = Some 7)
   \<and> extract_page_number_from_path ''r/d_page_3_results.json'' = None
   \<and> map page_num_estimated
        (load_errors (load_step sample_env ''b'' initial_load_state
           ''s3://b/r/d_page_3_results.json'')) = [None]
   \<and> map page_number
        (combined_pages_data (load_step sample_env ''b'' initial_load_state
           ''s3://b/r/d_page_2_results.json'')) = [JInt 1]"
proof -
  note t3 = estimator_misses_results_suffix [of "''r/d_page_7_result.json''" 7
      "''d_page_3''" "''d''" "''r''" 3 "''b''" "''s3://b/r/d_page_3_results.json''" sample_env
      initial_load_state "[]"]
  note t2 = estimator_misses_results_suffix [of "''r/d_page_3_results.json''" 7
      "''d_page_2''" "''d''" "''r''" 3 "''b''" "''s3://b/r/d_page_2_results.json''" sample_env
      initial_load_state
      "[(''grounded_output'', JStr ''B''), (''output_format'', JStr ''markdown'')]"]
  have a: "\<exists>pre ds. (path_stem ''r/d_page_7_result.json'' = pre @ ''_page_'' @ ds
               \<or> path_stem ''r/d_page_7_result.json'' = pre @ ''_page_'' @ ds @ ''_result'')
             \<and> py_int ds = Some 7"
    using t3 [THEN conjunct1] sample_estimate by (rule mp)
  have "CHR ''/'' \<notin> set ''d''" by simp
  with t3 [THEN conjunct2, THEN conjunct2, THEN conjunct1]
  have "extract_page_number_from_path (''r'' @ ''/'' @ ''d'' @ ''_page_'' @ show_nat 3
          @ ''_results.json'') = None"
    by (rule mp)
  moreover have "show_nat 3 = ''3''" by code_simp
  ultimately have b: "extract_page_number_from_path ''r/d_page_3_results.json'' = None"
    by simp
  have e0: "load_errors initial_load_state = []" "combined_pages_data initial_load_state = []"
    "successful_page_count initial_load_state = 0"
    by (simp_all add: initial_load_state_def)
  from t3 [THEN conjunct2, THEN conjunct2, THEN conjunct2] sample_stems(1) sample_loads(1)
  have c: "map page_num_estimated
        (load_errors (load_step sample_env ''b'' initial_load_state
           ''s3://b/r/d_page_3_results.json'')) = [None]"
    unfolding sample_keys e0 by simp
  have g: "get_object sample_env ''r/d_page_2_results.json''
      = Inr (JObj [(''grounded_output'', JStr ''B''), (''output_format'', JStr ''markdown'')])"
    by (simp add: sample_env_def sample_page_def)
  from t2 [THEN conjunct2, THEN conjunct2, THEN conjunct2] sample_stems(2) sample_loads(2) g
  have d: "map page_number
        (combined_pages_data (load_step sample_env ''b'' initial_load_state
           ''s3://b/r/d_page_2_results.json'')) = [JInt 1]"
    unfolding sample_keys e0 by simp
  from a b c d show ?thesis by (intro conjI)
qed

end
